theory Spec2Isabelle
  imports Main
begin

section \<open>JavaScript values used by the dired buffer codec\<close>

text \<open>
  A JavaScript string is a sequence of code units; it is modelled as a \<^typ>\<open>string\<close>
  (one \<^typ>\<open>char\<close> per code unit, so code units below 256). The codec only ever
  compares code units with ASCII literals and counts them.

  A JavaScript \<open>number\<close> that the codec handles is either \<open>NaN\<close> (what
  \<open>parseInt\<close> gives when there is no digit) or an integer: file sizes, calendar
  fields and the results of \<open>parseInt\<close> on at most eight characters are all
  integers far below \<open>2^53\<close>, where doubles are exact.
\<close>

datatype jsnum = NaN | Num int

text \<open>\<open>line.substring(a, b)\<close>: both indices are clamped to the length and swapped
  when \<open>a > b\<close>.\<close>

definition substring :: "string \<Rightarrow> nat \<Rightarrow> nat \<Rightarrow> string" where
  "substring s a b =
     (let a' = min a (length s); b' = min b (length s);
          lo = min a' b'; hi = max a' b'
      in take (hi - lo) (drop lo s))"

text \<open>\<open>line.substring(a)\<close>: the end defaults to the length.\<close>

definition substring_from :: "string \<Rightarrow> nat \<Rightarrow> string" where
  "substring_from s a = substring s a (length s)"

subsection \<open>Number to string (\<open>num + ""\<close>)\<close>

definition digit_char :: "nat \<Rightarrow> char" where
  "digit_char d = char_of (48 + d)"

fun digits :: "nat \<Rightarrow> string" where
  "digits n = (if n < 10 then [digit_char n] else digits (n div 10) @ [digit_char (n mod 10)])"

declare digits.simps [simp del]

text \<open>\<open>Number::toString\<close> on \<open>NaN\<close> and on integers (decimal digits, a
  leading \<open>-\<close> when negative; the exponent notation only starts at \<open>10^21\<close>).\<close>

fun jsToString :: "jsnum \<Rightarrow> string" where
  "jsToString NaN = ''NaN''"
| "jsToString (Num i) = (if i < 0 then CHR ''-'' # digits (nat (- i)) else digits (nat i))"

subsection \<open>\<open>parseInt(s)\<close> with no radix argument\<close>

text \<open>White space and line terminators that \<open>parseInt\<close> skips, among the code
  units below 256: TAB, LF, VT, FF, CR, SP and NBSP.\<close>

definition isWhiteSpace :: "char \<Rightarrow> bool" where
  "isWhiteSpace c = ((of_char c :: nat) \<in> {9, 10, 11, 12, 13, 32, 160})"

text \<open>The value of a code unit as a digit of radix \<open>r\<close>, if it is one.\<close>

definition digitVal :: "nat \<Rightarrow> char \<Rightarrow> nat option" where
  "digitVal r c =
     (let k = (of_char c :: nat);
          v = (if 48 \<le> k \<and> k \<le> 57 then Some (k - 48)
               else if 97 \<le> k \<and> k \<le> 122 then Some (k - 87)
               else if 65 \<le> k \<and> k \<le> 90 then Some (k - 55)
               else None)
      in case v of None \<Rightarrow> None | Some d \<Rightarrow> if d < r then Some d else None)"

definition isRadixDigit :: "nat \<Rightarrow> char \<Rightarrow> bool" where
  "isRadixDigit r c = (digitVal r c \<noteq> None)"

definition radixValue :: "nat \<Rightarrow> string \<Rightarrow> nat" where
  "radixValue r ds = foldl (\<lambda>acc c. acc * r + (case digitVal r c of Some d \<Rightarrow> d | None \<Rightarrow> 0)) 0 ds"

text \<open>
  The steps of \<open>parseInt\<close> in the language standard: trim leading white space, read
  an optional sign, strip a \<open>0x\<close>/\<open>0X\<close> prefix (radix 16, otherwise radix 10),
  take the longest prefix of digits; no digit gives \<open>NaN\<close>. \<open>parseLine\<close>
  applies it to columns of at most eight characters, whose value a double holds exactly.
\<close>

definition parseInt :: "string \<Rightarrow> jsnum" where
  "parseInt s =
     (let s1 = dropWhile isWhiteSpace s;
          neg = (take 1 s1 = ''-'');
          s2 = (if take 1 s1 = ''-'' \<or> take 1 s1 = ''+'' then drop 1 s1 else s1);
          hex = (take 2 s2 = ''0x'' \<or> take 2 s2 = ''0X'');
          r = (if hex then 16 else 10);
          s3 = (if hex then drop 2 s2 else s2);
          ds = takeWhile (isRadixDigit r) s3
      in if ds = [] then NaN
         else Num ((if neg then - 1 else 1) * int (radixValue r ds)))"

section \<open>FileItem (src/fileItem.ts)\<close>

text \<open>
  The private fields of the class, without their leading underscore. \<open>_username\<close>,
  \<open>_groupname\<close> and \<open>_modeStr\<close> have type \<open>string | undefined\<close>:
  \<open>None\<close> is \<open>undefined\<close>. \<open>size_f\<close> and \<open>min_f\<close> are \<open>_size\<close> and
  \<open>_min\<close>.
\<close>

record FileItem =
  dirname :: string
  filename :: string
  isDirectory :: bool
  isFile :: bool
  username :: "string option"
  groupname :: "string option"
  size_f :: jsnum
  month :: jsnum
  day :: jsnum
  hour :: jsnum
  min_f :: jsnum
  modeStr :: "string option"
  selected :: bool

text \<open>String concatenation and template literals turn \<open>undefined\<close> into the text
  \<open>undefined\<close>.\<close>

definition strOrUndefined :: "string option \<Rightarrow> string" where
  "strOrUndefined v = (case v of None \<Rightarrow> ''undefined'' | Some s \<Rightarrow> s)"

definition select :: "FileItem \<Rightarrow> bool \<Rightarrow> FileItem" where
  "select f v = f\<lparr>selected := v\<rparr>"

definition fileName :: "FileItem \<Rightarrow> string" where
  "fileName f = filename f"

text \<open>
  \<open>pad(num, size, p)\<close>: \<open>s = num + ""; while (s.length < size) s = p + s\<close>.
  Both call sites pass a one-character literal for \<open>p\<close> (a space or \<open>0\<close>), so
  \<open>p\<close> is a single code unit here and every iteration makes \<open>s\<close> one longer.
\<close>

function pad_loop :: "string \<Rightarrow> nat \<Rightarrow> char \<Rightarrow> string" where
  "pad_loop s sz p = (if length s < sz then pad_loop (p # s) sz p else s)"
  by pat_completeness auto
termination
  by (relation "measure (\<lambda>(s, sz, p). sz - length s)") auto

declare pad_loop.simps [simp del]

definition pad :: "jsnum \<Rightarrow> nat \<Rightarrow> char \<Rightarrow> string" where
  "pad num sz p = pad_loop (jsToString num) sz p"

definition line :: "FileItem \<Rightarrow> string" where
  "line f =
     (let u = substring (strOrUndefined (username f) @ ''        '') 0 8;
          g = substring (strOrUndefined (groupname f) @ ''        '') 0 8;
          size = pad (size_f f) 8 CHR '' '';
          month = pad (month f) 2 CHR ''0'';
          day = pad (day f) 2 CHR ''0'';
          hour = pad (hour f) 2 CHR ''0'';
          min = pad (min_f f) 2 CHR ''0'';
          se = (if selected f then ''*'' else '' '');
          filename = (if isDirectory f then filename f @ ''/'' else filename f)
      in se @ '' '' @ strOrUndefined (modeStr f) @ '' '' @ u @ '' '' @ g @ '' '' @ size
         @ '' '' @ month @ '' '' @ day @ '' '' @ hour @ '':'' @ min @ '' '' @ filename)"

definition parseLine :: "string \<Rightarrow> string \<Rightarrow> FileItem" where
  "parseLine dir ln =
     (let filename = substring_from ln 52;
          username = substring ln 13 (13 + 8);
          groupname = substring ln 22 (22 + 8);
          size = parseInt (substring ln 31 (31 + 8));
          month = parseInt (substring ln 40 (40 + 2));
          day = parseInt (substring ln 43 (43 + 2));
          hour = parseInt (substring ln 46 (46 + 2));
          min = parseInt (substring ln 49 (49 + 2));
          modeStr = substring ln 2 (2 + 10);
          isDirectory = (substring modeStr 0 (0 + 1) = ''d'');
          isFile = (substring modeStr 0 1 = ''-'');
          isSelected = (substring ln 0 1 = ''*'')
      in \<lparr> dirname = dir, filename = filename, isDirectory = isDirectory, isFile = isFile,
           username = Some username, groupname = Some groupname, size_f = size,
           month = month, day = day, hour = hour, min_f = min, modeStr = Some modeStr,
           selected = isSelected \<rparr>)"

subsection \<open>Entries created from a stat result\<close>

text \<open>
  Collaborators outside the repository's two source files. A \<open>Date\<close> is represented by
  what its four local-time getters return (\<open>getMonth\<close> counts from 0; an invalid date
  gives \<open>NaN\<close>). \<open>fs.Stats\<close> carries the three POSIX timestamps and the birth time.
  \<open>Mode\<close> is the \<open>stat-mode\<close> package: what \<open>isDirectory()\<close>, \<open>isFile()\<close> and
  \<open>toString()\<close> return for a stat result.
\<close>

record Date =
  getMonth :: jsnum
  getDate :: jsnum
  getHours :: jsnum
  getMinutes :: jsnum

record Stats =
  stats_mode :: nat
  stats_uid :: nat
  stats_gid :: nat
  stats_size :: jsnum
  stats_atime :: Date
  stats_mtime :: Date
  stats_ctime :: Date
  stats_birthtime :: Date

record Mode =
  mode_isDirectory :: bool
  mode_isFile :: bool
  mode_toString :: string

datatype js_error = Error string | TypeError string

text \<open>\<open>`${err}`\<close>: the error's name, a colon and its message.\<close>

fun errorText :: "js_error \<Rightarrow> string" where
  "errorText (Error m) = ''Error: '' @ m"
| "errorText (TypeError m) = ''TypeError: '' @ m"

text \<open>
  The environment a provider runs in: the \<open>stat-mode\<close> constructor, the id resolver
  (\<open>./idResolver\<close>, taken as a parameter: a lookup from a numeric id to a name or
  \<open>undefined\<close>), \<open>path.join\<close>, and the synchronous file-system calls, which return
  or throw.
\<close>

record Env =
  new_Mode :: "Stats \<Rightarrow> Mode"
  resolver_username :: "nat \<Rightarrow> string option"
  resolver_groupname :: "nat \<Rightarrow> string option"
  path_join :: "string \<Rightarrow> string \<Rightarrow> string"
  readdirSync :: "string \<Rightarrow> js_error + string list"
  statSync :: "string \<Rightarrow> js_error + Stats"
  lstatSync_isDirectory :: "string \<Rightarrow> js_error + bool"

text \<open>\<open>x + 1\<close> on a number.\<close>

fun jsPlus :: "jsnum \<Rightarrow> int \<Rightarrow> jsnum" where
  "jsPlus NaN k = NaN"
| "jsPlus (Num i) k = Num (i + k)"

definition create :: "Env \<Rightarrow> string \<Rightarrow> string \<Rightarrow> Stats \<Rightarrow> FileItem" where
  "create env dir fname stats =
     (let mode = new_Mode env stats
      in \<lparr> dirname = dir, filename = fname,
           isDirectory = mode_isDirectory mode, isFile = mode_isFile mode,
           username = resolver_username env (stats_uid stats),
           groupname = resolver_groupname env (stats_gid stats),
           size_f = stats_size stats,
           month = jsPlus (getMonth (stats_ctime stats)) 1,
           day = getDate (stats_ctime stats),
           hour = getHours (stats_ctime stats),
           min_f = getMinutes (stats_ctime stats),
           modeStr = Some (mode_toString mode),
           selected = False \<rparr>)"

section \<open>DiredProvider (src/provider.ts)\<close>

subsection \<open>Reading a directory\<close>

text \<open>
  The callback of \<open>files.map\<close> in \<open>readDir\<close>: the entry's item, or \<open>null\<close>
  (\<open>None\<close>) together with the message passed to \<open>showErrorMessage\<close> when
  \<open>statSync\<close> throws.
\<close>

definition readDir_stat :: "Env \<Rightarrow> string \<Rightarrow> string \<Rightarrow> FileItem option \<times> string list" where
  "readDir_stat env dir fname =
     (let p = path_join env dir fname
      in case statSync env p of
           Inr stat \<Rightarrow> (Some (create env dir fname stat), [])
         | Inl err \<Rightarrow> (None, [''Could not get stat of '' @ p @ '': '' @ errorText err]))"

text \<open>The callback of \<open>filter\<close> in \<open>readDir\<close>.\<close>

definition readDir_keep :: "bool \<Rightarrow> FileItem option \<Rightarrow> bool" where
  "readDir_keep show_dot_files fileItem =
     (case fileItem of
        Some f \<Rightarrow>
          (let fname = fileName f
           in if fname = ''..'' \<or> fname = ''.'' then False
              else if show_dot_files then True
              else substring fname 0 1 \<noteq> ''.'')
      | None \<Rightarrow> False)"

text \<open>
  \<open>readDir\<close> returns the items and, in order, the messages shown; it throws what
  \<open>readdirSync\<close> throws.
\<close>

definition readDir :: "Env \<Rightarrow> bool \<Rightarrow> string \<Rightarrow> js_error + (FileItem list \<times> string list)" where
  "readDir env show_dot_files dir =
     (case readdirSync env dir of
        Inl err \<Rightarrow> Inl err
      | Inr names \<Rightarrow>
          (let files = [''.'', ''..''] @ names;
               mapped = map (readDir_stat env dir) files;
               kept = filter (readDir_keep show_dot_files) (map fst mapped)
           in Inr (concat (map (\<lambda>fi. case fi of None \<Rightarrow> [] | Some f \<Rightarrow> [f]) kept),
                   concat (map snd mapped))))"

text \<open>
  \<open>createBuffer\<close>: the header line and one line per item; a failure of \<open>readDir\<close>
  is caught and reported, a failure of \<open>lstatSync\<close> is not.
\<close>

definition createBuffer :: "Env \<Rightarrow> bool \<Rightarrow> string \<Rightarrow> js_error + (string list \<times> string list)" where
  "createBuffer env show_dot_files dir =
     (case lstatSync_isDirectory env dir of
        Inl err \<Rightarrow> Inl err
      | Inr isDir \<Rightarrow>
          (let (files, msgs) =
                 (if isDir then
                    (case readDir env show_dot_files dir of
                       Inr r \<Rightarrow> r
                     | Inl err \<Rightarrow> ([], [''Could not read '' @ dir @ '': '' @ errorText err]))
                  else ([], []))
           in Inr ([dir @ '':''] @ map line files, msgs)))"

subsection \<open>Selecting lines\<close>

text \<open>
  The loop at the end of \<open>selectFiles\<close>,
  \<open>for (let i = start; i < end; i++) { ... }\<close>, on the buffer. Reading
  \<open>this._buffers[i]\<close> beyond the end gives \<open>undefined\<close>, and \<open>parseLine\<close>
  then throws a \<open>TypeError\<close> at \<open>line.substring\<close>.
\<close>

function selectRange :: "string \<Rightarrow> string list \<Rightarrow> nat \<Rightarrow> nat \<Rightarrow> bool \<Rightarrow> bool \<Rightarrow> js_error + string list" where
  "selectRange dir buffers i e v allowSelectDot =
     (if i < e then
        (if i < length buffers then
           (let f = parseLine dir (buffers ! i)
            in if (fileName f = ''.'' \<or> fileName f = ''..'') \<and> \<not> allowSelectDot
               then selectRange dir buffers (i + 1) e v allowSelectDot
               else selectRange dir (buffers[i := line (select f v)]) (i + 1) e v allowSelectDot)
         else Inl (TypeError ''Cannot read properties of undefined (reading substring)''))
      else Inr buffers)"
  by pat_completeness auto
termination
  by (relation "measure (\<lambda>(dir, buffers, i, e, v, a). e - i)") auto

declare selectRange.simps [simp del]

text \<open>
  The editor as \<open>selectFiles\<close> sees it: the document's lines (\<open>doc.lineAt(i).text\<close>
  for \<open>i < doc.lineCount\<close>) and the selection (\<open>isEmpty\<close>, and the line numbers of
  \<open>active\<close>, \<open>start\<close> and \<open>end\<close>).
\<close>

record Selection =
  sel_isEmpty :: bool
  sel_active_line :: nat
  sel_start_line :: nat
  sel_end_line :: nat

record TextEditor =
  doc_lines :: "string list"
  selection :: Selection

text \<open>The getter \<open>dirname\<close> of the provider: the header line without its last
  character, or \<open>undefined\<close> without an active editor. \<open>lineAt(0)\<close> throws on a
  document with no line.\<close>

definition provider_dirname :: "TextEditor option \<Rightarrow> js_error + string option" where
  "provider_dirname at =
     (case at of
        None \<Rightarrow> Inr None
      | Some ed \<Rightarrow>
          (case doc_lines ed of
             [] \<Rightarrow> Inl (Error ''Illegal value for `line`'')
           | line0 # _ \<Rightarrow> Inr (Some (substring line0 0 (length line0 - 1)))))"

text \<open>
  \<open>selectFiles(value)\<close>. The result is the new \<open>_buffers\<close> and whether the cursor was
  moved down a line; without a directory name or an editor nothing changes. An empty
  directory name is falsy, like \<open>undefined\<close>.
\<close>

definition selectFiles :: "string list \<Rightarrow> TextEditor option \<Rightarrow> bool \<Rightarrow> js_error + (string list \<times> bool)" where
  "selectFiles old_buffers at v =
     (case provider_dirname at of
        Inl err \<Rightarrow> Inl err
      | Inr None \<Rightarrow> Inr (old_buffers, False)
      | Inr (Some dir) \<Rightarrow>
          (if dir = [] then Inr (old_buffers, False)
           else case at of
             None \<Rightarrow> Inr (old_buffers, False)
           | Some ed \<Rightarrow>
               (let buffers = doc_lines ed;
                    lineCount = length (doc_lines ed);
                    sel = selection ed;
                    (start, end', allowSelectDot, moved) =
                      (if sel_isEmpty sel then
                         (if sel_active_line sel = 0 then (1, lineCount, False, False)
                          else (sel_active_line sel, sel_active_line sel + 1, True, True))
                       else (sel_start_line sel, sel_end_line sel, False, False))
                in case selectRange dir buffers start end' v allowSelectDot of
                     Inl err \<Rightarrow> Inl err
                   | Inr buffers' \<Rightarrow> Inr (buffers', moved))))"

section \<open>Concrete entries, buffers and environments\<close>

text \<open>A regular file owned by \<open>root\<close>/\<open>staff\<close>, 42 bytes, stamped 01-05 09:03.\<close>

definition ex_file :: FileItem where
  "ex_file = \<lparr> dirname = ''/tmp'', filename = ''x'', isDirectory = False, isFile = True,
     username = Some ''root'', groupname = Some ''staff'', size_f = Num 42,
     month = Num 1, day = Num 5, hour = Num 9, min_f = Num 3,
     modeStr = Some ''-rw-r--r--'', selected = False \<rparr>"

text \<open>A directory \<open>sub\<close>.\<close>

definition ex_dir :: FileItem where
  "ex_dir = \<lparr> dirname = ''/tmp'', filename = ''sub'', isDirectory = True, isFile = False,
     username = Some ''root'', groupname = Some ''staff'', size_f = Num 96,
     month = Num 1, day = Num 5, hour = Num 9, min_f = Num 3,
     modeStr = Some ''drwxr-xr-x'', selected = False \<rparr>"

text \<open>A file of 100000000 bytes whose owner and group names have exactly 8 characters.\<close>

definition ex_big :: FileItem where
  "ex_big = \<lparr> dirname = ''/tmp'', filename = ''big.iso'', isDirectory = False, isFile = True,
     username = Some ''operator'', groupname = Some ''operator'', size_f = Num 100000000,
     month = Num 1, day = Num 5, hour = Num 9, min_f = Num 3,
     modeStr = Some ''-rw-r--r--'', selected = False \<rparr>"

text \<open>The buffer of \<open>/tmp\<close> holding the two entries above, as \<open>createBuffer\<close> lays
  it out: the header, then one line per entry.\<close>

definition ex_buffer :: "string list" where
  "ex_buffer = [''/tmp:'',
     ''  -rw-r--r-- root     staff          42 01 05 09:03 x'',
     ''  drwxr-xr-x root     staff          96 01 05 09:03 sub/'']"

text \<open>An editor showing that buffer with lines 0 to 2 selected (a multi-line selection
  that starts on the header).\<close>

definition ex_editor :: TextEditor where
  "ex_editor = \<lparr> doc_lines = ex_buffer,
     selection = \<lparr> sel_isEmpty = False, sel_active_line = 2, sel_start_line = 0, sel_end_line = 2 \<rparr> \<rparr>"

text \<open>A stat result changed (ctime) on 06-15 at 10:30 and modified (mtime) on 03-02 at
  08:05; \<open>getMonth\<close> counts from 0.\<close>

definition ex_stats :: Stats where
  "ex_stats = \<lparr> stats_mode = 33188, stats_uid = 0, stats_gid = 20, stats_size = Num 42,
     stats_atime = \<lparr> getMonth = Num 6, getDate = Num 1, getHours = Num 0, getMinutes = Num 0 \<rparr>,
     stats_mtime = \<lparr> getMonth = Num 2, getDate = Num 2, getHours = Num 8, getMinutes = Num 5 \<rparr>,
     stats_ctime = \<lparr> getMonth = Num 5, getDate = Num 15, getHours = Num 10, getMinutes = Num 30 \<rparr>,
     stats_birthtime = \<lparr> getMonth = Num 0, getDate = Num 1, getHours = Num 0, getMinutes = Num 0 \<rparr> \<rparr>"

text \<open>An environment in which \<open>/tmp\<close> lists \<open>a.txt\<close> and \<open>.hidden\<close> and every stat
  succeeds.\<close>

definition ex_env :: Env where
  "ex_env = \<lparr>
     new_Mode = (\<lambda>st. \<lparr> mode_isDirectory = False, mode_isFile = True, mode_toString = ''-rw-r--r--'' \<rparr>),
     resolver_username = (\<lambda>uid. Some ''root''),
     resolver_groupname = (\<lambda>gid. Some ''staff''),
     path_join = (\<lambda>d f. d @ ''/'' @ f),
     readdirSync = (\<lambda>d. Inr [''a.txt'', ''.hidden'']),
     statSync = (\<lambda>p. Inr ex_stats),
     lstatSync_isDirectory = (\<lambda>d. Inr True) \<rparr>"


text \<open>A buffer whose two entry lines carry the names \<open>.\<close> and \<open>..\<close>.\<close>

definition ex_dot_buffer :: "string list" where
  "ex_dot_buffer = [''/tmp:'',
     ''  drwxr-xr-x root     staff        4096 01 05 09:03 .'',
     ''  drwxr-xr-x root     staff        4096 01 05 09:03 ..'']"

text \<open>An entry line after a manual edit of its size column, which now reads
  \<open>12abc\<close>.\<close>

definition ex_mixed :: string where
  "ex_mixed = ''  -rw-r--r-- root     staff       12abc 01 05 09:03 x''"

text \<open>An entry line after a manual edit: the size column holds letters and the line stops
  in the middle of the time column.\<close>

definition ex_garbled :: string where
  "ex_garbled = ''  -rw-r--r-- root     staff         abc 01 05 09''"

section \<open>Strings and numbers\<close>

lemma substring_take_drop: "a \<le> b \<Longrightarrow> substring s a b = take (b - a) (drop a s)"
  by (auto simp: substring_def Let_def min_def max_def)

lemma substring_from_drop: "substring_from s a = drop a s"
  by (auto simp: substring_from_def substring_def Let_def min_def max_def)

lemma pad_loop_eq: "pad_loop s n c = replicate (n - length s) c @ s"
proof (induction s n c rule: pad_loop.induct)
  case (1 s sz p)
  show ?case
  proof (cases "length s < sz")
    case True
    then have "sz - length s = Suc (sz - Suc (length s))" by simp
    with True 1 show ?thesis
      by (subst pad_loop.simps) (simp add: replicate_app_Cons_same)
  next
    case False
    then show ?thesis by (subst pad_loop.simps) simp
  qed
qed

lemma of_char_digit_char: "d < 10 \<Longrightarrow> (of_char (digit_char d) :: nat) = 48 + d"
  by (simp add: digit_char_def)

lemma isRadixDigit_10_iff: "isRadixDigit 10 c \<longleftrightarrow> 48 \<le> (of_char c :: nat) \<and> (of_char c :: nat) \<le> 57"
  by (auto simp: isRadixDigit_def digitVal_def Let_def split: if_splits)

lemma digitVal_10: "isRadixDigit 10 c \<Longrightarrow> digitVal 10 c = Some (of_char c - 48)"
  by (auto simp: isRadixDigit_def digitVal_def Let_def split: if_splits)

lemma isRadixDigit_digit_char: "d < 10 \<Longrightarrow> isRadixDigit 10 (digit_char d)"
  by (simp add: isRadixDigit_10_iff of_char_digit_char)

lemma digitVal_digit_char: "d < 10 \<Longrightarrow> digitVal 10 (digit_char d) = Some d"
  by (simp add: digitVal_10 isRadixDigit_digit_char of_char_digit_char)

lemma digits_ne: "digits n \<noteq> []"
  by (subst digits.simps) simp

lemma digits_all: "\<forall>c \<in> set (digits n). isRadixDigit 10 c"
proof (induction n rule: digits.induct)
  case (1 n)
  then show ?case
    by (subst digits.simps) (auto simp: isRadixDigit_digit_char)
qed

lemma radixValue_snoc: "radixValue r (ds @ [c]) = radixValue r ds * r + (case digitVal r c of Some d \<Rightarrow> d | None \<Rightarrow> 0)"
  by (simp add: radixValue_def)

lemma radixValue_digits: "radixValue 10 (digits n) = n"
proof (induction n rule: digits.induct)
  case (1 n)
  show ?case
  proof (cases "n < 10")
    case True
    then show ?thesis
      by (subst digits.simps) (simp add: radixValue_def digitVal_digit_char)
  next
    case False
    with 1 show ?thesis
      by (subst digits.simps) (simp add: radixValue_snoc digitVal_digit_char)
  qed
qed

lemma length_digits: "n < 10 ^ k \<Longrightarrow> 0 < k \<Longrightarrow> length (digits n) \<le> k"
proof (induction n arbitrary: k rule: digits.induct)
  case (1 n)
  show ?case
  proof (cases "n < 10")
    case True
    with 1 show ?thesis by (subst digits.simps) simp
  next
    case False
    obtain j where k: "k = Suc j" using 1(3) by (cases k) auto
    have "j \<noteq> 0" using False 1(2) k by (cases j) auto
    moreover have "n div 10 < 10 ^ j" using 1(2) k by (simp add: less_mult_imp_div_less)
    ultimately have "length (digits (n div 10)) \<le> j" using 1(1)[OF False, of j] by simp
    with False k show ?thesis by (subst digits.simps) simp
  qed
qed


lemma radixValue_zeros: "radixValue 10 (replicate k CHR ''0'' @ ds) = radixValue 10 ds"
proof -
  have "foldl (\<lambda>acc c. acc * 10 + (case digitVal 10 c of Some d \<Rightarrow> d | None \<Rightarrow> 0)) 0 (replicate k CHR ''0'') = 0"
    by (induction k) (simp_all add: digitVal_def)
  then show ?thesis by (simp add: radixValue_def)
qed

lemma dec_not_special:
  assumes "isRadixDigit 10 c"
  shows "\<not> isWhiteSpace c" "c \<noteq> CHR ''-''" "c \<noteq> CHR ''+''" "c \<noteq> CHR ''x''" "c \<noteq> CHR ''X''"
  using assms by (auto simp: isRadixDigit_10_iff isWhiteSpace_def)

lemma parseInt_trim: "parseInt (dropWhile isWhiteSpace s) = parseInt s"
  by (simp add: parseInt_def)

lemma parseInt_decimal:
  assumes "ds \<noteq> []" and "\<forall>c \<in> set ds. isRadixDigit 10 c"
  shows "parseInt ds = Num (int (radixValue 10 ds))"
proof -
  obtain c cs where ds: "ds = c # cs" using assms(1) by (cases ds) auto
  have c: "isRadixDigit 10 c" using assms(2) ds by simp
  have s1: "dropWhile isWhiteSpace ds = ds" using ds dec_not_special(1)[OF c] by simp
  have t1: "take 1 ds = [c]" using ds by simp
  have nohex: "take 2 ds \<noteq> ''0x''" "take 2 ds \<noteq> ''0X''"
  proof -
    show "take 2 ds \<noteq> ''0x''"
    proof (cases cs)
      case Nil then show ?thesis using ds by simp
    next
      case (Cons d es)
      then have "isRadixDigit 10 d" using assms(2) ds by simp
      then show ?thesis using ds Cons dec_not_special(4) by auto
    qed
    show "take 2 ds \<noteq> ''0X''"
    proof (cases cs)
      case Nil then show ?thesis using ds by simp
    next
      case (Cons d es)
      then have "isRadixDigit 10 d" using assms(2) ds by simp
      then show ?thesis using ds Cons dec_not_special(5) by auto
    qed
  qed
  have tw: "takeWhile (isRadixDigit 10) ds = ds" using assms(2) by (simp add: takeWhile_eq_all_conv)
  show ?thesis
    unfolding parseInt_def Let_def s1 t1
    using dec_not_special(2,3)[OF c] assms(1) by (simp add: nohex tw)
qed

lemma parseInt_pad_zero: "0 \<le> i \<Longrightarrow> parseInt (pad (Num i) k CHR ''0'') = Num i"
proof -
  assume i: "0 \<le> i"
  let ?ds = "replicate (k - length (digits (nat i))) CHR ''0'' @ digits (nat i)"
  have z: "isRadixDigit 10 CHR ''0''" by (simp add: isRadixDigit_10_iff)
  have "parseInt ?ds = Num (int (radixValue 10 ?ds))"
    by (rule parseInt_decimal) (use digits_ne digits_all z in auto)
  then show ?thesis using i
    by (simp add: pad_def pad_loop_eq radixValue_zeros radixValue_digits)
qed

lemma parseInt_pad_space: "0 \<le> i \<Longrightarrow> parseInt (pad (Num i) k CHR '' '') = Num i"
proof -
  assume i: "0 \<le> i"
  obtain c cs where ds: "digits (nat i) = c # cs" using digits_ne[of "nat i"] by (cases "digits (nat i)") auto
  have "isRadixDigit 10 c" using digits_all[of "nat i"] ds by simp
  then have nw: "\<not> isWhiteSpace c" by (rule dec_not_special(1))
  have sp: "isWhiteSpace CHR '' ''" by (simp add: isWhiteSpace_def)
  have dw: "dropWhile isWhiteSpace (replicate (k - length (digits (nat i))) CHR '' '' @ digits (nat i)) = digits (nat i)"
    using nw sp ds by (simp add: dropWhile_append)
  have "parseInt (replicate (k - length (digits (nat i))) CHR '' '' @ digits (nat i)) = parseInt (digits (nat i))"
    using parseInt_trim[of "replicate (k - length (digits (nat i))) CHR '' '' @ digits (nat i)"] unfolding dw by simp
  also have "\<dots> = Num (int (radixValue 10 (digits (nat i))))"
    by (rule parseInt_decimal) (use digits_ne digits_all in auto)
  finally show ?thesis using i
    by (simp add: pad_def pad_loop_eq radixValue_digits)
qed

section \<open>The fixed columns of an entry line\<close>

lemma layout_fields:
  fixes L :: string
  assumes L: "L = se @ '' '' @ m @ '' '' @ u @ '' '' @ g @ '' '' @ sz @ '' '' @ mo @ '' '' @ d @ '' '' @ h @ '':'' @ mi @ '' '' @ name"
    and len: "length se = 1" "length m = 10" "length u = 8" "length g = 8" "length sz = 8"
      "length mo = 2" "length d = 2" "length h = 2" "length mi = 2"
  shows "substring L 0 1 = se" "substring L 2 12 = m" "substring L 13 21 = u"
    "substring L 22 30 = g" "substring L 31 39 = sz" "substring L 40 42 = mo"
    "substring L 43 45 = d" "substring L 46 48 = h" "substring L 49 51 = mi"
    "substring_from L 52 = name"
    "L ! 1 = CHR '' ''" "L ! 12 = CHR '' ''" "L ! 21 = CHR '' ''" "L ! 30 = CHR '' ''"
    "L ! 39 = CHR '' ''" "L ! 42 = CHR '' ''" "L ! 45 = CHR '' ''" "L ! 48 = CHR '':''"
    "L ! 51 = CHR '' ''" "length L = 52 + length name"
  using len unfolding L by (simp_all add: substring_take_drop substring_from_drop nth_append)

lemma length_pad: "0 \<le> i \<Longrightarrow> nat i < 10 ^ k \<Longrightarrow> 0 < k \<Longrightarrow> length (pad (Num i) k c) = k"
  using length_digits[of "nat i" k] by (simp add: pad_def pad_loop_eq)

lemma pad_Num: "0 \<le> i \<Longrightarrow> pad (Num i) k c = replicate (k - length (digits (nat i))) c @ digits (nat i)"
  by (simp add: pad_def pad_loop_eq)

lemma length_owner: "length (substring (s @ ''        '') 0 8) = 8"
  by (simp add: substring_take_drop)

lemma owner_field: "substring (s @ ''        '') 0 8 = take 8 (s @ replicate 8 CHR '' '')"
  by (simp add: substring_take_drop eval_nat_numeral)

lemma line_unfold:
  "line f = (if selected f then ''*'' else '' '') @ '' '' @ strOrUndefined (modeStr f) @ '' ''
     @ substring (strOrUndefined (username f) @ ''        '') 0 8 @ '' ''
     @ substring (strOrUndefined (groupname f) @ ''        '') 0 8 @ '' ''
     @ pad (size_f f) 8 CHR '' '' @ '' '' @ pad (month f) 2 CHR ''0'' @ '' ''
     @ pad (day f) 2 CHR ''0'' @ '' '' @ pad (hour f) 2 CHR ''0'' @ '':''
     @ pad (min_f f) 2 CHR ''0'' @ '' '' @ (if isDirectory f then filename f @ ''/'' else filename f)"
  by (simp add: line_def Let_def)

lemma line_layout_aux:
  assumes "modeStr f = Some m" "length m = 10"
    "size_f f = Num sz" "0 \<le> sz" "sz < 10 ^ 8"
    "month f = Num mo" "0 \<le> mo" "mo < 100" "day f = Num d" "0 \<le> d" "d < 100"
    "hour f = Num h" "0 \<le> h" "h < 100" "min_f f = Num mi" "0 \<le> mi" "mi < 100"
  shows "substring (line f) 0 1 = (if selected f then ''*'' else '' '')"
    "substring (line f) 2 12 = m"
    "substring (line f) 13 21 = substring (strOrUndefined (username f) @ ''        '') 0 8"
    "substring (line f) 22 30 = substring (strOrUndefined (groupname f) @ ''        '') 0 8"
    "substring (line f) 31 39 = pad (Num sz) 8 CHR '' ''"
    "substring (line f) 40 42 = pad (Num mo) 2 CHR ''0''"
    "substring (line f) 43 45 = pad (Num d) 2 CHR ''0''"
    "substring (line f) 46 48 = pad (Num h) 2 CHR ''0''"
    "substring (line f) 49 51 = pad (Num mi) 2 CHR ''0''"
    "substring_from (line f) 52 = (if isDirectory f then filename f @ ''/'' else filename f)"
    "line f ! 1 = CHR '' ''" "line f ! 12 = CHR '' ''" "line f ! 21 = CHR '' ''"
    "line f ! 30 = CHR '' ''" "line f ! 39 = CHR '' ''" "line f ! 42 = CHR '' ''"
    "line f ! 45 = CHR '' ''" "line f ! 48 = CHR '':''" "line f ! 51 = CHR '' ''"
    "length (line f) = 52 + length (if isDirectory f then filename f @ ''/'' else filename f)"
proof -
  have n: "nat sz < 10 ^ 8" "nat mo < 10 ^ 2" "nat d < 10 ^ 2" "nat h < 10 ^ 2" "nat mi < 10 ^ 2"
    using assms by simp_all
  have L: "line f = (if selected f then ''*'' else '' '') @ '' '' @ m @ '' ''
     @ substring (strOrUndefined (username f) @ ''        '') 0 8 @ '' ''
     @ substring (strOrUndefined (groupname f) @ ''        '') 0 8 @ '' ''
     @ pad (Num sz) 8 CHR '' '' @ '' '' @ pad (Num mo) 2 CHR ''0'' @ '' ''
     @ pad (Num d) 2 CHR ''0'' @ '' '' @ pad (Num h) 2 CHR ''0'' @ '':''
     @ pad (Num mi) 2 CHR ''0'' @ '' '' @ (if isDirectory f then filename f @ ''/'' else filename f)"
    using assms by (simp add: line_unfold strOrUndefined_def)
  have l1: "length (if selected f then ''*'' else '' '') = 1" by simp
  note lens = l1 \<open>length m = 10\<close> length_owner[of "strOrUndefined (username f)"]
    length_owner[of "strOrUndefined (groupname f)"]
    length_pad[OF \<open>0 \<le> sz\<close> n(1), of "CHR '' ''"] length_pad[OF \<open>0 \<le> mo\<close> n(2), of "CHR ''0''"]
    length_pad[OF \<open>0 \<le> d\<close> n(3), of "CHR ''0''"] length_pad[OF \<open>0 \<le> h\<close> n(4), of "CHR ''0''"]
    length_pad[OF \<open>0 \<le> mi\<close> n(5), of "CHR ''0''"]
  note lf = layout_fields[OF L]
  show "substring (line f) 0 1 = (if selected f then ''*'' else '' '')" using lens by (intro lf(1)) simp_all
  show "substring (line f) 2 12 = m" using lens by (intro lf(2)) simp_all
  show "substring (line f) 13 21 = substring (strOrUndefined (username f) @ ''        '') 0 8"
    using lens by (intro lf(3)) simp_all
  show "substring (line f) 22 30 = substring (strOrUndefined (groupname f) @ ''        '') 0 8"
    using lens by (intro lf(4)) simp_all
  show "substring (line f) 31 39 = pad (Num sz) 8 CHR '' ''" using lens by (intro lf(5)) simp_all
  show "substring (line f) 40 42 = pad (Num mo) 2 CHR ''0''" using lens by (intro lf(6)) simp_all
  show "substring (line f) 43 45 = pad (Num d) 2 CHR ''0''" using lens by (intro lf(7)) simp_all
  show "substring (line f) 46 48 = pad (Num h) 2 CHR ''0''" using lens by (intro lf(8)) simp_all
  show "substring (line f) 49 51 = pad (Num mi) 2 CHR ''0''" using lens by (intro lf(9)) simp_all
  show "substring_from (line f) 52 = (if isDirectory f then filename f @ ''/'' else filename f)"
    using lens by (intro lf(10)) simp_all
  show "line f ! 1 = CHR '' ''" using lens by (intro lf(11)) simp_all
  show "line f ! 12 = CHR '' ''" using lens by (intro lf(12)) simp_all
  show "line f ! 21 = CHR '' ''" using lens by (intro lf(13)) simp_all
  show "line f ! 30 = CHR '' ''" using lens by (intro lf(14)) simp_all
  show "line f ! 39 = CHR '' ''" using lens by (intro lf(15)) simp_all
  show "line f ! 42 = CHR '' ''" using lens by (intro lf(16)) simp_all
  show "line f ! 45 = CHR '' ''" using lens by (intro lf(17)) simp_all
  show "line f ! 48 = CHR '':''" using lens by (intro lf(18)) simp_all
  show "line f ! 51 = CHR '' ''" using lens by (intro lf(19)) simp_all
  show "length (line f) = 52 + length (if isDirectory f then filename f @ ''/'' else filename f)"
    using lens by (intro lf(20)) simp_all
qed

text \<open>
  Claim C5. For an entry with defined owner and group, a mode string of 10 characters, a
  size from 0 to below \<open>10^8\<close> and time fields in range (month 1-12, day 1-31, hour
  0-23, minute 0-59), the encoded line has the fixed columns: the selection marker at 0, a
  space at 1, the mode string in [2..12), the owner padded or cut to 8 in [13..21), the
  group likewise in [22..30), the size padded with spaces to 8 in [31..39), the month, day
  and hour padded with zeros to 2 in [40..42), [43..45) and [46..48), a colon, the minute
  in [49..51), a space, and from column 52 the name, followed by \<open>/\<close> exactly for a
  directory.
\<close>

theorem line_fixed_columns:
  assumes "username f = Some u" "groupname f = Some g" "modeStr f = Some m" "length m = 10"
    "size_f f = Num sz" "0 \<le> sz" "sz < 10 ^ 8"
    "month f = Num mo" "1 \<le> mo" "mo \<le> 12" "day f = Num d" "1 \<le> d" "d \<le> 31"
    "hour f = Num h" "0 \<le> h" "h \<le> 23" "min_f f = Num mi" "0 \<le> mi" "mi \<le> 59"
  shows "line f ! 0 = (if selected f then CHR ''*'' else CHR '' '')
    \<and> line f ! 1 = CHR '' ''
    \<and> substring (line f) 2 12 = m
    \<and> line f ! 12 = CHR '' ''
    \<and> substring (line f) 13 21 = take 8 (u @ replicate 8 CHR '' '')
    \<and> line f ! 21 = CHR '' ''
    \<and> substring (line f) 22 30 = take 8 (g @ replicate 8 CHR '' '')
    \<and> line f ! 30 = CHR '' ''
    \<and> substring (line f) 31 39 = replicate (8 - length (digits (nat sz))) CHR '' '' @ digits (nat sz)
    \<and> line f ! 39 = CHR '' ''
    \<and> substring (line f) 40 42 = replicate (2 - length (digits (nat mo))) CHR ''0'' @ digits (nat mo)
    \<and> line f ! 42 = CHR '' ''
    \<and> substring (line f) 43 45 = replicate (2 - length (digits (nat d))) CHR ''0'' @ digits (nat d)
    \<and> line f ! 45 = CHR '' ''
    \<and> substring (line f) 46 48 = replicate (2 - length (digits (nat h))) CHR ''0'' @ digits (nat h)
    \<and> line f ! 48 = CHR '':''
    \<and> substring (line f) 49 51 = replicate (2 - length (digits (nat mi))) CHR ''0'' @ digits (nat mi)
    \<and> line f ! 51 = CHR '' ''
    \<and> substring_from (line f) 52 = (if isDirectory f then filename f @ ''/'' else filename f)
    \<and> length (line f) = 52 + length (filename f) + (if isDirectory f then 1 else 0)"
proof -
  have b: "0 \<le> mo" "mo < 100" "0 \<le> d" "d < 100" "h < 100" "mi < 100"
    using assms by simp_all
  note aux = line_layout_aux[OF assms(3,4) assms(5,6,7) assms(8) b(1,2) assms(11) b(3,4)
      assms(14,15) b(5) assms(17,18) b(6)]
  have c0: "line f ! 0 = (if selected f then CHR ''*'' else CHR '' '')"
    by (simp add: line_unfold)
  have u: "substring (line f) 13 21 = take 8 (u @ replicate 8 CHR '' '')"
    using aux(3) assms(1) by (simp add: strOrUndefined_def owner_field)
  have g: "substring (line f) 22 30 = take 8 (g @ replicate 8 CHR '' '')"
    using aux(4) assms(2) by (simp add: strOrUndefined_def owner_field)
  have s: "substring (line f) 31 39 = replicate (8 - length (digits (nat sz))) CHR '' '' @ digits (nat sz)"
    using aux(5) assms(6) by (simp add: pad_Num)
  have mo: "substring (line f) 40 42 = replicate (2 - length (digits (nat mo))) CHR ''0'' @ digits (nat mo)"
    using aux(6) b(1) by (simp add: pad_Num)
  have d: "substring (line f) 43 45 = replicate (2 - length (digits (nat d))) CHR ''0'' @ digits (nat d)"
    using aux(7) b(3) by (simp add: pad_Num)
  have h: "substring (line f) 46 48 = replicate (2 - length (digits (nat h))) CHR ''0'' @ digits (nat h)"
    using aux(8) assms(15) by (simp add: pad_Num)
  have mi: "substring (line f) 49 51 = replicate (2 - length (digits (nat mi))) CHR ''0'' @ digits (nat mi)"
    using aux(9) assms(18) by (simp add: pad_Num)
  have len: "length (line f) = 52 + length (filename f) + (if isDirectory f then 1 else 0)"
    using aux(20) by simp
  show ?thesis
    using c0 aux(11) aux(2) aux(12) u aux(13) g aux(14) s aux(15) mo aux(16) d aux(17) h aux(18)
      mi aux(19) aux(10) len
    by (intro conjI)
qed

text \<open>
  Claim C1, as amended. For an entry whose owner and group are defined and at most 8
  characters long, whose mode string has 10 characters and starts with \<open>d\<close> exactly
  when the entry is a directory and with \<open>-\<close> exactly when it is a file, whose size is
  an integer from 0 to below \<open>10^8\<close> and whose month, day, hour and minute are integers
  from 0 to 99, decoding the encoded line gives the entry back in every field, except that
  owner and group come back padded with spaces to 8 characters and that the name of a
  directory comes back with the rendered \<open>/\<close> at its end.
\<close>

theorem parseLine_line_roundtrip:
  assumes "username E = Some u" "length u \<le> 8" "groupname E = Some g" "length g \<le> 8"
    "modeStr E = Some m" "length m = 10"
    "isDirectory E = (take 1 m = ''d'')" "isFile E = (take 1 m = ''-'')"
    "size_f E = Num sz" "0 \<le> sz" "sz < 10 ^ 8"
    "month E = Num mo" "0 \<le> mo" "mo < 100" "day E = Num d" "0 \<le> d" "d < 100"
    "hour E = Num h" "0 \<le> h" "h < 100" "min_f E = Num mi" "0 \<le> mi" "mi < 100"
  shows "parseLine (dirname E) (line E) =
    E\<lparr> username := Some (u @ replicate (8 - length u) CHR '' ''),
       groupname := Some (g @ replicate (8 - length g) CHR '' ''),
       filename := (if isDirectory E then filename E @ ''/'' else filename E) \<rparr>"
proof -
  note aux = line_layout_aux[OF assms(5,6) assms(9-23)]
  have u: "substring (line E) 13 21 = u @ replicate (8 - length u) CHR '' ''"
    using aux(3) assms(1,2) by (simp add: strOrUndefined_def owner_field)
  have g: "substring (line E) 22 30 = g @ replicate (8 - length g) CHR '' ''"
    using aux(4) assms(3,4) by (simp add: strOrUndefined_def owner_field)
  have m1: "substring m 0 1 = take 1 m" by (simp add: substring_take_drop)
  have sel: "(substring (line E) 0 1 = ''*'') = selected E" using aux(1) by simp
  have nums: "parseInt (substring (line E) 31 39) = Num sz" "parseInt (substring (line E) 40 42) = Num mo"
    "parseInt (substring (line E) 43 45) = Num d" "parseInt (substring (line E) 46 48) = Num h"
    "parseInt (substring (line E) 49 51) = Num mi"
    using assms by (simp_all add: aux parseInt_pad_zero parseInt_pad_space)
  have P: "parseLine (dirname E) (line E) =
    \<lparr> dirname = dirname E,
      filename = (if isDirectory E then filename E @ ''/'' else filename E),
      isDirectory = (take 1 m = ''d''), isFile = (take 1 m = ''-''),
      username = Some (u @ replicate (8 - length u) CHR '' ''),
      groupname = Some (g @ replicate (8 - length g) CHR '' ''),
      size_f = Num sz, month = Num mo, day = Num d, hour = Num h, min_f = Num mi,
      modeStr = Some m, selected = selected E \<rparr>"
    unfolding parseLine_def Let_def
    by (simp add: aux(2) aux(10) u g m1 sel nums del: One_nat_def)
  show ?thesis
    unfolding P using assms(1,3,5,7,8,9,12,15,18,21)
    by (intro FileItem.equality) simp_all
qed

text \<open>
  Claim C7. For every entry, the lines encoded with the selection flag set and cleared
  differ only in character 0 (\<open>*\<close> against a space): \<open>select\<close> changes nothing else
  of the rendered line.
\<close>

theorem select_only_marker:
  "(\<exists>rest. line (select E True) = CHR ''*'' # rest \<and> line (select E False) = CHR '' '' # rest)
   \<and> tl (line (select E v)) = tl (line E)
   \<and> hd (line (select E v)) = (if v then CHR ''*'' else CHR '' '')"
  by (simp add: line_unfold select_def)

section \<open>Decoding any line\<close>

lemma parseLine_fields:
  "parseLine dir ln =
    \<lparr> dirname = dir, filename = drop 52 ln,
      isDirectory = (take 1 (drop 2 ln) = ''d''), isFile = (take 1 (drop 2 ln) = ''-''),
      username = Some (take 8 (drop 13 ln)), groupname = Some (take 8 (drop 22 ln)),
      size_f = parseInt (take 8 (drop 31 ln)), month = parseInt (take 2 (drop 40 ln)),
      day = parseInt (take 2 (drop 43 ln)), hour = parseInt (take 2 (drop 46 ln)),
      min_f = parseInt (take 2 (drop 49 ln)), modeStr = Some (take 10 (drop 2 ln)),
      selected = (take 1 ln = ''*'') \<rparr>"
  unfolding parseLine_def Let_def
  by (simp add: substring_take_drop substring_from_drop min_def del: One_nat_def)

lemma parseInt_no_leading_digit:
  assumes "u = (if take 1 (dropWhile isWhiteSpace s) = ''-'' \<or> take 1 (dropWhile isWhiteSpace s) = ''+''
               then drop 1 (dropWhile isWhiteSpace s) else dropWhile isWhiteSpace s)"
    and "u = [] \<or> \<not> isRadixDigit 10 (hd u)"
  shows "parseInt s = NaN"
proof -
  have z: "isRadixDigit 10 CHR ''0''" by (simp add: isRadixDigit_10_iff)
  have nohex: "take 2 u \<noteq> ''0x''" "take 2 u \<noteq> ''0X''"
    using assms(2) z by (cases u; auto)+
  have "takeWhile (isRadixDigit 10) u = []"
    using assms(2) by (cases u) auto
  then show ?thesis
    unfolding parseInt_def Let_def assms(1)[symmetric]
    using nohex by simp
qed

lemma parseInt_leading_digits:
  assumes "u = (if take 1 (dropWhile isWhiteSpace s) = ''-'' \<or> take 1 (dropWhile isWhiteSpace s) = ''+''
               then drop 1 (dropWhile isWhiteSpace s) else dropWhile isWhiteSpace s)"
    and "u \<noteq> []" and "isRadixDigit 10 (hd u)" and "take 2 u \<noteq> ''0x''" and "take 2 u \<noteq> ''0X''"
  shows "parseInt s = Num ((if take 1 (dropWhile isWhiteSpace s) = ''-'' then - 1 else 1)
           * int (radixValue 10 (takeWhile (isRadixDigit 10) u)))"
proof -
  have "takeWhile (isRadixDigit 10) u \<noteq> []"
    using assms(2,3) by (cases u) auto
  then show ?thesis
    unfolding parseInt_def Let_def assms(1)[symmetric]
    using assms(4,5) by simp
qed

text \<open>
  Claim C10, as amended. Decoding is total: for every string \<open>parseLine\<close> returns an
  item whose fields are the clamped substrings at the fixed offsets (empty where the line
  is too short, so the name is empty for a line of at most 52 characters, and every text
  field of the empty line is empty). A numeric field is \<open>parseInt\<close> of its column and
  never fails: it is \<open>NaN\<close> when the column, after leading white space and one
  optional sign, is empty or does not start with a decimal digit; when it starts with a
  decimal digit and not with the prefix \<open>0x\<close> or \<open>0X\<close>, it is the signed value of
  the leading decimal digits, whatever follows them.
\<close>

theorem parseLine_total:
  "parseLine dir ln =
    \<lparr> dirname = dir, filename = drop 52 ln,
      isDirectory = (take 1 (drop 2 ln) = ''d''), isFile = (take 1 (drop 2 ln) = ''-''),
      username = Some (take 8 (drop 13 ln)), groupname = Some (take 8 (drop 22 ln)),
      size_f = parseInt (take 8 (drop 31 ln)), month = parseInt (take 2 (drop 40 ln)),
      day = parseInt (take 2 (drop 43 ln)), hour = parseInt (take 2 (drop 46 ln)),
      min_f = parseInt (take 2 (drop 49 ln)), modeStr = Some (take 10 (drop 2 ln)),
      selected = (take 1 ln = ''*'') \<rparr>
   \<and> (length ln \<le> 52 \<longrightarrow> filename (parseLine dir ln) = [])
   \<and> parseLine dir [] =
        \<lparr> dirname = dir, filename = [], isDirectory = False, isFile = False,
          username = Some [], groupname = Some [], size_f = NaN, month = NaN, day = NaN,
          hour = NaN, min_f = NaN, modeStr = Some [], selected = False \<rparr>
   \<and> (\<forall>s. let t = dropWhile isWhiteSpace s;
               u = (if take 1 t = ''-'' \<or> take 1 t = ''+'' then drop 1 t else t)
           in ((u = [] \<or> \<not> isRadixDigit 10 (hd u)) \<longrightarrow> parseInt s = NaN)
            \<and> (u \<noteq> [] \<and> isRadixDigit 10 (hd u) \<and> take 2 u \<noteq> ''0x'' \<and> take 2 u \<noteq> ''0X'' \<longrightarrow>
                 parseInt s = Num ((if take 1 t = ''-'' then - 1 else 1)
                                   * int (radixValue 10 (takeWhile (isRadixDigit 10) u)))))"
proof -
  have e: "parseInt [] = NaN" by (simp add: parseInt_def)
  have a: "parseLine dir [] =
        \<lparr> dirname = dir, filename = [], isDirectory = False, isFile = False,
          username = Some [], groupname = Some [], size_f = NaN, month = NaN, day = NaN,
          hour = NaN, min_f = NaN, modeStr = Some [], selected = False \<rparr>"
    by (simp add: parseLine_fields e)
  have b: "length ln \<le> 52 \<longrightarrow> filename (parseLine dir ln) = []"
    by (simp add: parseLine_fields)
  have n: "\<forall>s. let t = dropWhile isWhiteSpace s;
               u = (if take 1 t = ''-'' \<or> take 1 t = ''+'' then drop 1 t else t)
           in ((u = [] \<or> \<not> isRadixDigit 10 (hd u)) \<longrightarrow> parseInt s = NaN)
            \<and> (u \<noteq> [] \<and> isRadixDigit 10 (hd u) \<and> take 2 u \<noteq> ''0x'' \<and> take 2 u \<noteq> ''0X'' \<longrightarrow>
                 parseInt s = Num ((if take 1 t = ''-'' then - 1 else 1)
                                   * int (radixValue 10 (takeWhile (isRadixDigit 10) u))))"
    unfolding Let_def
    using parseInt_no_leading_digit[OF refl] parseInt_leading_digits[OF refl] by blast
  show ?thesis using parseLine_fields[of dir ln] a b n by (intro conjI)
qed

section \<open>The selection loop\<close>

lemma fileName_parseLine: "fileName (parseLine dir ln) = substring_from ln 52"
  by (simp add: fileName_def parseLine_def Let_def)

lemma selectRange_result:
  "e \<le> length bufs \<Longrightarrow>
   \<exists>r. selectRange dir bufs i e v a = Inr r \<and> length r = length bufs \<and>
     (\<forall>k < length bufs. r ! k =
        (if i \<le> k \<and> k < e then
           (if (substring_from (bufs ! k) 52 = ''.'' \<or> substring_from (bufs ! k) 52 = ''..'') \<and> \<not> a
            then bufs ! k else line (select (parseLine dir (bufs ! k)) v))
         else bufs ! k))"
proof (induction dir bufs i e v a rule: selectRange.induct)
  case (1 dir buffers i e v allow)
  show ?case
  proof (cases "i < e")
    case False
    then show ?thesis by (subst selectRange.simps) auto
  next
    case True
    with 1(3) have il: "i < length buffers" by simp
    let ?f = "parseLine dir (buffers ! i)"
    show ?thesis
    proof (cases "(fileName ?f = ''.'' \<or> fileName ?f = ''..'') \<and> \<not> allow")
      case skip: True
      from 1(1)[OF True il refl skip 1(3)]
      obtain r where r: "selectRange dir buffers (i + 1) e v allow = Inr r" "length r = length buffers"
        and rk: "\<forall>k < length buffers. r ! k =
          (if i + 1 \<le> k \<and> k < e then
             (if (substring_from (buffers ! k) 52 = ''.'' \<or> substring_from (buffers ! k) 52 = ''..'') \<and> \<not> allow
              then buffers ! k else line (select (parseLine dir (buffers ! k)) v))
           else buffers ! k)"
        by blast
      have eq: "selectRange dir buffers i e v allow = Inr r"
        using True il skip r(1) by (subst selectRange.simps) (simp add: Let_def)
      have "\<forall>k < length buffers. r ! k =
          (if i \<le> k \<and> k < e then
             (if (substring_from (buffers ! k) 52 = ''.'' \<or> substring_from (buffers ! k) 52 = ''..'') \<and> \<not> allow
              then buffers ! k else line (select (parseLine dir (buffers ! k)) v))
           else buffers ! k)"
      proof (intro allI impI)
        fix k assume k: "k < length buffers"
        show "r ! k =
          (if i \<le> k \<and> k < e then
             (if (substring_from (buffers ! k) 52 = ''.'' \<or> substring_from (buffers ! k) 52 = ''..'') \<and> \<not> allow
              then buffers ! k else line (select (parseLine dir (buffers ! k)) v))
           else buffers ! k)"
        proof (cases "k = i")
          case True
          then show ?thesis using rk k skip by (simp add: fileName_parseLine)
        next
          case False
          then have "(i \<le> k) = (i + 1 \<le> k)" by auto
          then show ?thesis using rk k by simp
        qed
      qed
      with eq r(2) show ?thesis by blast
    next
      case upd: False
      let ?b = "buffers[i := line (select ?f v)]"
      have le: "e \<le> length ?b" using 1(3) by simp
      from 1(2)[OF True il refl upd le]
      obtain r where r: "selectRange dir ?b (i + 1) e v allow = Inr r" "length r = length buffers"
        and rk: "\<forall>k < length buffers. r ! k =
          (if i + 1 \<le> k \<and> k < e then
             (if (substring_from (?b ! k) 52 = ''.'' \<or> substring_from (?b ! k) 52 = ''..'') \<and> \<not> allow
              then ?b ! k else line (select (parseLine dir (?b ! k)) v))
           else ?b ! k)"
        by auto
      have eq: "selectRange dir buffers i e v allow = Inr r"
        using True il upd r(1) by (subst selectRange.simps) (auto simp: Let_def)
      have "\<forall>k < length buffers. r ! k =
          (if i \<le> k \<and> k < e then
             (if (substring_from (buffers ! k) 52 = ''.'' \<or> substring_from (buffers ! k) 52 = ''..'') \<and> \<not> allow
              then buffers ! k else line (select (parseLine dir (buffers ! k)) v))
           else buffers ! k)"
      proof (intro allI impI)
        fix k assume k: "k < length buffers"
        show "r ! k =
          (if i \<le> k \<and> k < e then
             (if (substring_from (buffers ! k) 52 = ''.'' \<or> substring_from (buffers ! k) 52 = ''..'') \<and> \<not> allow
              then buffers ! k else line (select (parseLine dir (buffers ! k)) v))
           else buffers ! k)"
        proof (cases "k = i")
          case keq: True
          have "r ! i = ?b ! i" using rk il by simp
          then show ?thesis using keq il True upd by (auto simp: fileName_parseLine)
        next
          case False
          then have "(i \<le> k) = (i + 1 \<le> k)" by auto
          then show ?thesis using rk k False by simp
        qed
      qed
      with eq r(2) show ?thesis by blast
    qed
  qed
qed

lemma selectRange_Inr_bound:
  "selectRange dir bufs i e v a = Inr r \<Longrightarrow> i < e \<Longrightarrow> e \<le> length bufs"
proof (induction dir bufs i e v a rule: selectRange.induct)
  case (1 dir buffers i e v allow)
  have il: "i < length buffers"
    using 1(3,4) by (subst (asm) selectRange.simps) (simp split: if_splits)
  let ?f = "parseLine dir (buffers ! i)"
  show ?case
  proof (cases "i + 1 < e")
    case False
    then show ?thesis using il 1(4) by simp
  next
    case True
    show ?thesis
    proof (cases "(fileName ?f = ''.'' \<or> fileName ?f = ''..'') \<and> \<not> allow")
      case skip: True
      have "selectRange dir buffers (i + 1) e v allow = Inr r"
        using 1(3,4) il skip by (subst (asm) selectRange.simps) (simp add: Let_def)
      from 1(1)[OF 1(4) il refl skip this True] show ?thesis .
    next
      case upd: False
      have "selectRange dir (buffers[i := line (select ?f v)]) (i + 1) e v allow = Inr r"
        using 1(3,4) il upd by (subst (asm) selectRange.simps) (auto simp: Let_def)
      from 1(2)[OF 1(4) il refl upd this True] show ?thesis by simp
    qed
  qed
qed

text \<open>
  Claim C8. When the name decoded from a line (its text from column 52 on) is exactly
  \<open>.\<close> or \<open>..\<close>, the selection loop run with \<open>allowSelectDot = false\<close> returns that
  line unchanged, whatever the range and for both values of the flag; and the loop does
  return when its range ends within the buffer.
\<close>

theorem select_dot_guard:
  assumes "k < length lns"
    and "substring_from (lns ! k) 52 = ''.'' \<or> substring_from (lns ! k) 52 = ''..''"
  shows "(e \<le> length lns \<longrightarrow> (\<exists>r. selectRange dir lns s e v False = Inr r))
       \<and> (\<forall>r. selectRange dir lns s e v False = Inr r \<longrightarrow> r ! k = lns ! k)"
proof (intro conjI allI impI)
  assume "e \<le> length lns"
  then show "\<exists>r. selectRange dir lns s e v False = Inr r"
    using selectRange_result[of e lns dir s v False] by blast
next
  fix r assume r: "selectRange dir lns s e v False = Inr r"
  show "r ! k = lns ! k"
  proof (cases "s < e")
    case False
    then have "r = lns" using r by (subst (asm) selectRange.simps) simp
    then show ?thesis by simp
  next
    case True
    then have "e \<le> length lns" using selectRange_Inr_bound[OF r] by simp
    from selectRange_result[OF this, of dir s v False] r assms show ?thesis by auto
  qed
qed

section \<open>Concrete runs\<close>

lemma digit_char_simps:
  "digit_char 0 = CHR ''0''" "digit_char 1 = CHR ''1''" "digit_char 2 = CHR ''2''"
  "digit_char 3 = CHR ''3''" "digit_char 4 = CHR ''4''" "digit_char 5 = CHR ''5''"
  "digit_char 6 = CHR ''6''" "digit_char 7 = CHR ''7''" "digit_char 8 = CHR ''8''"
  "digit_char 9 = CHR ''9''" "digit_char (Suc 0) = CHR ''1''"
  by code_simp+

lemma line_ex_big: "line ex_big = ''  -rw-r--r-- operator operator 100000000 01 05 09:03 big.iso''"
  by (simp add: ex_big_def line_unfold strOrUndefined_def substring_take_drop pad_def pad_loop_eq
      digits.simps digit_char_simps)

lemma parseInt_shifted: "parseInt ''10000000'' = Num 10000000"
proof -
  have "parseInt ''10000000'' = Num (int (radixValue 10 ''10000000''))"
    by (rule parseInt_decimal) (simp_all add: isRadixDigit_10_iff)
  also have "radixValue 10 ''10000000'' = 10000000"
    by (simp add: radixValue_def digitVal_def)
  finally show ?thesis by simp
qed

text \<open>
  Claim C1 as it was stated fails on two valid entries: the owner \<open>root\<close> is decoded as
  \<open>root\<close> followed by four spaces, and a size of 100000000 takes nine columns, so that
  the size is decoded as 10000000.
\<close>

theorem roundtrip_counterexample:
  "username (parseLine (dirname ex_file) (line ex_file)) = Some ''root    ''
   \<and> username ex_file = Some ''root''
   \<and> size_f (parseLine (dirname ex_big) (line ex_big)) = Num 10000000
   \<and> size_f ex_big = Num 100000000"
proof -
  have a: "username (parseLine (dirname ex_file) (line ex_file)) = Some ''root    ''
     \<and> username ex_file = Some ''root''"
    by code_simp
  have b: "size_f (parseLine (dirname ex_big) (line ex_big)) = Num 10000000"
    by (simp add: line_ex_big parseLine_fields parseInt_shifted)
  have c: "size_f ex_big = Num 100000000" by (simp add: ex_big_def)
  from a b c show ?thesis by simp
qed


lemma replicate_numeral_unfold: "replicate (numeral k) x = x # replicate (pred_numeral k) x"
  by (simp add: numeral_eq_Suc)

theorem line_fixed_columns_witness:
  "line ex_file ! 0 = CHR '' '' \<and> line ex_file ! 1 = CHR '' ''
   \<and> substring (line ex_file) 2 12 = ''-rw-r--r--''
   \<and> substring (line ex_file) 13 21 = ''root    ''
   \<and> substring (line ex_file) 22 30 = ''staff   ''
   \<and> substring (line ex_file) 31 39 = ''      42''
   \<and> substring (line ex_file) 40 42 = ''01''
   \<and> substring (line ex_file) 43 45 = ''05''
   \<and> substring (line ex_file) 46 48 = ''09''
   \<and> line ex_file ! 48 = CHR '':''
   \<and> substring (line ex_file) 49 51 = ''03''
   \<and> substring_from (line ex_file) 52 = ''x''
   \<and> length (line ex_file) = 53"
proof -
  have r: "take 8 (''root'' @ replicate 8 CHR '' '') = ''root    ''"
    "take 8 (''staff'' @ replicate 8 CHR '' '') = ''staff   ''"
    "replicate (8 - length (digits (nat 42))) CHR '' '' @ digits (nat 42) = ''      42''"
    "replicate (2 - length (digits (nat 1))) CHR ''0'' @ digits (nat 1) = ''01''"
    "replicate (2 - length (digits (nat 5))) CHR ''0'' @ digits (nat 5) = ''05''"
    "replicate (2 - length (digits (nat 9))) CHR ''0'' @ digits (nat 9) = ''09''"
    "replicate (2 - length (digits (nat 3))) CHR ''0'' @ digits (nat 3) = ''03''"
    by code_simp+
  have fields: "selected ex_file = False" "isDirectory ex_file = False" "filename ex_file = ''x''"
    by (simp_all add: ex_file_def)
  have "username ex_file = Some ''root''" "groupname ex_file = Some ''staff''"
    "modeStr ex_file = Some ''-rw-r--r--''" "length ''-rw-r--r--'' = 10"
    "size_f ex_file = Num 42" "(0::int) \<le> 42" "(42::int) < 10 ^ 8"
    "month ex_file = Num 1" "(1::int) \<le> 1" "(1::int) \<le> 12"
    "day ex_file = Num 5" "(1::int) \<le> 5" "(5::int) \<le> 31"
    "hour ex_file = Num 9" "(0::int) \<le> 9" "(9::int) \<le> 23"
    "min_f ex_file = Num 3" "(0::int) \<le> 3" "(3::int) \<le> 59"
    by (simp_all add: ex_file_def)
  from line_fixed_columns[OF this, unfolded r fields]
  show ?thesis by simp
qed

theorem parseLine_line_roundtrip_witness:
  "parseLine ''/tmp'' (line ex_dir) =
     ex_dir\<lparr> username := Some ''root    '', groupname := Some ''staff   '', filename := ''sub/'' \<rparr>"
proof -
  have r: "''root'' @ replicate (8 - length ''root'') CHR '' '' = ''root    ''"
    "''staff'' @ replicate (8 - length ''staff'') CHR '' '' = ''staff   ''"
    by code_simp+
  have fields: "dirname ex_dir = ''/tmp''" "isDirectory ex_dir = True" "filename ex_dir = ''sub''"
    by (simp_all add: ex_dir_def)
  have "username ex_dir = Some ''root''" "length ''root'' \<le> 8"
    "groupname ex_dir = Some ''staff''" "length ''staff'' \<le> 8"
    "modeStr ex_dir = Some ''drwxr-xr-x''" "length ''drwxr-xr-x'' = 10"
    "isDirectory ex_dir = (take 1 ''drwxr-xr-x'' = ''d'')" "isFile ex_dir = (take 1 ''drwxr-xr-x'' = ''-'')"
    "size_f ex_dir = Num 96" "(0::int) \<le> 96" "(96::int) < 10 ^ 8"
    "month ex_dir = Num 1" "(0::int) \<le> 1" "(1::int) < 100"
    "day ex_dir = Num 5" "(0::int) \<le> 5" "(5::int) < 100"
    "hour ex_dir = Num 9" "(0::int) \<le> 9" "(9::int) < 100"
    "min_f ex_dir = Num 3" "(0::int) \<le> 3" "(3::int) < 100"
    by (simp_all add: ex_dir_def)
  from parseLine_line_roundtrip[OF this, unfolded r fields]
  show ?thesis by simp
qed

theorem select_dot_guard_witness:
  "\<exists>r. selectRange ''/tmp'' ex_dot_buffer 1 3 True False = Inr r
       \<and> r ! 1 = ex_dot_buffer ! 1 \<and> substring_from (ex_dot_buffer ! 1) 52 = ''.''"
proof -
  have h: "1 < length ex_dot_buffer"
    "substring_from (ex_dot_buffer ! 1) 52 = ''.'' \<or> substring_from (ex_dot_buffer ! 1) 52 = ''..''"
    "3 \<le> length ex_dot_buffer" "substring_from (ex_dot_buffer ! 1) 52 = ''.''"
    by code_simp+
  from select_dot_guard[OF h(1,2), of 3 "''/tmp''" 1 True] h(3,4)
  show ?thesis by blast
qed

text \<open>
  Claim C10 as it was stated (a numeric column that is not a number decodes to \<open>NaN\<close>)
  fails on a size column that reads \<open>12abc\<close>: it decodes to 12.
\<close>

theorem parseLine_digit_prefix_counterexample:
  "substring ex_mixed 31 39 = ''   12abc'' \<and> size_f (parseLine ''/tmp'' ex_mixed) = Num 12"
  by code_simp

theorem parseLine_total_witness:
  "length ex_garbled \<le> 52 \<and> filename (parseLine ''/tmp'' ex_garbled) = []
   \<and> take 8 (drop 31 ex_garbled) = ''     abc'' \<and> size_f (parseLine ''/tmp'' ex_garbled) = NaN
   \<and> take 8 (drop 31 ex_mixed) = ''   12abc'' \<and> size_f (parseLine ''/tmp'' ex_mixed) = Num 12"
proof -
  note g = parseLine_total[of "''/tmp''" ex_garbled]
  note m = parseLine_total[of "''/tmp''" ex_mixed]
  have len: "length ex_garbled \<le> 52" by code_simp
  have cg: "take 8 (drop 31 ex_garbled) = ''     abc''" by code_simp
  have cm: "take 8 (drop 31 ex_mixed) = ''   12abc''" by code_simp
  have ug: "dropWhile isWhiteSpace ''     abc'' = ''abc''" "\<not> isRadixDigit 10 CHR ''a''" by code_simp+
  have um: "dropWhile isWhiteSpace ''   12abc'' = ''12abc''" "isRadixDigit 10 CHR ''1''"
    "radixValue 10 (takeWhile (isRadixDigit 10) ''12abc'') = 12" by code_simp+
  note gp = g[THEN conjunct2, THEN conjunct2, THEN conjunct2, THEN spec, of "''     abc''"]
  note mp = m[THEN conjunct2, THEN conjunct2, THEN conjunct2, THEN spec, of "''   12abc''"]
  from g[THEN conjunct2, THEN conjunct1] len
  have name: "filename (parseLine ''/tmp'' ex_garbled) = []" by simp
  have "size_f (parseLine ''/tmp'' ex_garbled) = parseInt ''     abc''"
    by (subst g[THEN conjunct1]) (simp add: cg)
  moreover from gp[unfolded Let_def ug(1)] have "parseInt ''     abc'' = NaN"
    by (simp add: ug(2))
  ultimately have sg: "size_f (parseLine ''/tmp'' ex_garbled) = NaN" by simp
  have "size_f (parseLine ''/tmp'' ex_mixed) = parseInt ''   12abc''"
    by (subst m[THEN conjunct1]) (simp add: cm)
  moreover have u: "(if take 1 ''12abc'' = ''-'' \<or> take 1 ''12abc'' = ''+'' then drop 1 ''12abc'' else ''12abc'') = ''12abc''"
    by simp
  from mp[unfolded Let_def um(1) u um(3)] have "parseInt ''   12abc'' = Num 12"
    by (simp add: um(2))
  ultimately have sm: "size_f (parseLine ''/tmp'' ex_mixed) = Num 12" by simp
  from len name cg sg cm sm show ?thesis by simp
qed

section \<open>Reading a directory\<close>

lemma fileName_create: "fileName (create env dir n st) = n"
  by (simp add: fileName_def create_def Let_def)

lemma readDir_keep_create:
  "readDir_keep sh (Some (create env dir n st)) = (n \<noteq> ''.'' \<and> n \<noteq> ''..'' \<and> (sh \<or> take 1 n \<noteq> ''.''))"
  by (auto simp: readDir_keep_def fileName_create Let_def substring_take_drop)

lemma readDir_items_names:
  "map fileName (concat (map (\<lambda>fi. case fi of None \<Rightarrow> [] | Some f \<Rightarrow> [f])
       (filter (readDir_keep sh) (map fst (map (readDir_stat env dir) ns))))) =
   filter (\<lambda>n. n \<noteq> ''.'' \<and> n \<noteq> ''..'' \<and> (sh \<or> take 1 n \<noteq> ''.''))
     (filter (\<lambda>n. \<not> isl (statSync env (path_join env dir n))) ns)"
proof (induction ns)
  case Nil
  then show ?case by simp
next
  case (Cons n ns)
  show ?case
  proof (cases "statSync env (path_join env dir n)")
    case (Inl err)
    then have "fst (readDir_stat env dir n) = None" by (simp add: readDir_stat_def Let_def)
    with Inl Cons show ?thesis by (simp add: readDir_keep_def)
  next
    case (Inr st)
    then have "fst (readDir_stat env dir n) = Some (create env dir n st)"
      by (simp add: readDir_stat_def Let_def)
    with Inr Cons show ?thesis by (cases sh) (simp_all add: readDir_keep_create fileName_create)
  qed
qed

lemma readDir_items_dir:
  "f \<in> set (concat (map (\<lambda>fi. case fi of None \<Rightarrow> [] | Some f \<Rightarrow> [f])
       (filter (readDir_keep sh) (map fst (map (readDir_stat env dir) ns))))) \<Longrightarrow>
   \<exists>n st. n \<in> set ns \<and> statSync env (path_join env dir n) = Inr st \<and> f = create env dir n st"
  by (auto simp: readDir_stat_def Let_def split: sum.splits option.splits)

lemma readDir_messages:
  "concat (map snd (map (readDir_stat env dir) ns)) =
   concat (map (\<lambda>n. case statSync env (path_join env dir n) of
                       Inr st \<Rightarrow> []
                     | Inl err \<Rightarrow> [''Could not get stat of '' @ path_join env dir n @ '': '' @ errorText err]) ns)"
  by (induction ns) (auto simp: readDir_stat_def Let_def split: sum.splits)

lemma readDir_result:
  assumes "readdirSync env dir = Inr names"
  shows "\<exists>items msgs. readDir env sh dir = Inr (items, msgs)
    \<and> map fileName items =
        filter (\<lambda>n. n \<noteq> ''.'' \<and> n \<noteq> ''..'' \<and> (sh \<or> take 1 n \<noteq> ''.''))
          (filter (\<lambda>n. \<not> isl (statSync env (path_join env dir n))) names)
    \<and> (\<forall>f \<in> set items. \<exists>n st. n \<in> set names \<and> statSync env (path_join env dir n) = Inr st
          \<and> f = create env dir n st)
    \<and> msgs = concat (map (\<lambda>n. case statSync env (path_join env dir n) of
                       Inr st \<Rightarrow> []
                     | Inl err \<Rightarrow> [''Could not get stat of '' @ path_join env dir n @ '': '' @ errorText err])
                (''.'' # ''..'' # names))"
proof -
  let ?ns = "''.'' # ''..'' # names"
  let ?items = "concat (map (\<lambda>fi. case fi of None \<Rightarrow> [] | Some f \<Rightarrow> [f])
       (filter (readDir_keep sh) (map fst (map (readDir_stat env dir) ?ns))))"
  let ?msgs = "concat (map snd (map (readDir_stat env dir) ?ns))"
  have r: "readDir env sh dir = Inr (?items, ?msgs)"
    using assms by (simp add: readDir_def Let_def)
  have n: "map fileName ?items =
        filter (\<lambda>n. n \<noteq> ''.'' \<and> n \<noteq> ''..'' \<and> (sh \<or> take 1 n \<noteq> ''.''))
          (filter (\<lambda>n. \<not> isl (statSync env (path_join env dir n))) names)"
    unfolding readDir_items_names by simp
  have d: "\<forall>f \<in> set ?items. \<exists>n st. n \<in> set names \<and> statSync env (path_join env dir n) = Inr st
          \<and> f = create env dir n st"
  proof
    fix f assume f: "f \<in> set ?items"
    from readDir_items_dir[OF f] obtain n st where
      nst: "n \<in> set ?ns" "statSync env (path_join env dir n) = Inr st" "f = create env dir n st"
      by blast
    have "fileName f \<in> set (map fileName ?items)" using f by simp
    then have "fileName f \<noteq> ''.'' \<and> fileName f \<noteq> ''..''" unfolding n by simp
    then have "n \<noteq> ''.'' \<and> n \<noteq> ''..''" using nst(3) by (simp add: fileName_create)
    with nst show "\<exists>n st. n \<in> set names \<and> statSync env (path_join env dir n) = Inr st
          \<and> f = create env dir n st" by auto
  qed
  from r n d readDir_messages[of env dir ?ns] show ?thesis by simp
qed

lemma createBuffer_of_readDir:
  "lstatSync_isDirectory env dir = Inr True \<Longrightarrow> readDir env sh dir = Inr (items, msgs) \<Longrightarrow>
   createBuffer env sh dir = Inr ((dir @ '':'') # map line items, msgs)"
  by (simp add: createBuffer_def)

text \<open>
  Claim C6. Whatever the directory holds and whatever \<open>showDotFiles\<close> is, the items
  of \<open>readDir\<close>, which are the body of the buffer, never include the names \<open>.\<close>
  and \<open>..\<close>, and with \<open>showDotFiles\<close> off they include no name that starts with a
  dot; the names kept are exactly the other names whose stat succeeded, in directory
  order. For the entries \<open>.\<close>, \<open>..\<close>, \<open>a.txt\<close> and \<open>.hidden\<close> with
  \<open>showDotFiles\<close> off the body holds \<open>a.txt\<close> alone.
\<close>

theorem readDir_hides_dot_entries:
  assumes "readdirSync env dir = Inr names"
  shows "\<exists>items msgs. readDir env sh dir = Inr (items, msgs)
    \<and> (\<forall>f \<in> set items. fileName f \<noteq> ''.'' \<and> fileName f \<noteq> ''..''
          \<and> (\<not> sh \<longrightarrow> take 1 (fileName f) \<noteq> ''.''))
    \<and> map fileName items =
        filter (\<lambda>n. n \<noteq> ''.'' \<and> n \<noteq> ''..'' \<and> (sh \<or> take 1 n \<noteq> ''.''))
          (filter (\<lambda>n. \<not> isl (statSync env (path_join env dir n))) names)
    \<and> (lstatSync_isDirectory env dir = Inr True \<longrightarrow>
          createBuffer env sh dir = Inr ((dir @ '':'') # map line items, msgs))"
proof -
  from readDir_result[OF assms, of sh] obtain items msgs where
    r: "readDir env sh dir = Inr (items, msgs)"
    and n: "map fileName items =
        filter (\<lambda>n. n \<noteq> ''.'' \<and> n \<noteq> ''..'' \<and> (sh \<or> take 1 n \<noteq> ''.''))
          (filter (\<lambda>n. \<not> isl (statSync env (path_join env dir n))) names)"
    by blast
  have v: "\<forall>f \<in> set items. fileName f \<noteq> ''.'' \<and> fileName f \<noteq> ''..''
          \<and> (\<not> sh \<longrightarrow> take 1 (fileName f) \<noteq> ''.'')"
  proof
    fix f assume "f \<in> set items"
    then have "fileName f \<in> set (map fileName items)" by simp
    then show "fileName f \<noteq> ''.'' \<and> fileName f \<noteq> ''..'' \<and> (\<not> sh \<longrightarrow> take 1 (fileName f) \<noteq> ''.'')"
      unfolding n by auto
  qed
  have b: "lstatSync_isDirectory env dir = Inr True \<longrightarrow>
          createBuffer env sh dir = Inr ((dir @ '':'') # map line items, msgs)"
    using createBuffer_of_readDir[OF _ r] by blast
  from r v n b show ?thesis by blast
qed

theorem readDir_hides_dot_entries_witness:
  "\<exists>items msgs. readDir ex_env False ''/tmp'' = Inr (items, msgs)
     \<and> map fileName items = [''a.txt'']
     \<and> createBuffer ex_env False ''/tmp'' = Inr (''/tmp:'' # map line items, msgs)"
proof -
  have h: "readdirSync ex_env ''/tmp'' = Inr [''a.txt'', ''.hidden'']"
    "lstatSync_isDirectory ex_env ''/tmp'' = Inr True"
    by (simp_all add: ex_env_def)
  have s: "\<And>p. statSync ex_env p = Inr ex_stats" by (simp add: ex_env_def)
  from readDir_hides_dot_entries[OF h(1), of False] obtain items msgs where
    r: "readDir ex_env False ''/tmp'' = Inr (items, msgs)"
    and n: "map fileName items =
        filter (\<lambda>n. n \<noteq> ''.'' \<and> n \<noteq> ''..'' \<and> (False \<or> take 1 n \<noteq> ''.''))
          (filter (\<lambda>n. \<not> isl (statSync ex_env (path_join ex_env ''/tmp'' n))) [''a.txt'', ''.hidden''])"
    and b: "lstatSync_isDirectory ex_env ''/tmp'' = Inr True \<longrightarrow>
          createBuffer ex_env False ''/tmp'' = Inr ((''/tmp'' @ '':'') # map line items, msgs)"
    by blast
  have "map fileName items = [''a.txt'']" using n by (simp add: s)
  moreover have "createBuffer ex_env False ''/tmp'' = Inr (''/tmp:'' # map line items, msgs)"
    using b h(2) by simp
  ultimately show ?thesis using r by (intro exI[of _ items] exI[of _ msgs]) simp
qed




section \<open>Entries created from a stat result\<close>

text \<open>
  Claim C4, as amended. For every stat result, the month, day, hour and minute of a freshly
  created entry are taken from the status-change timestamp \<open>ctime\<close> of the stat
  result: the month is \<open>ctime.getMonth() + 1\<close> (1 to 12 for a month index 0 to 11), the
  day \<open>ctime.getDate()\<close>, the hour \<open>ctime.getHours()\<close> and the minute
  \<open>ctime.getMinutes()\<close>.
\<close>

theorem create_time_fields:
  "month (create env dir n st) = jsPlus (getMonth (stats_ctime st)) 1
   \<and> day (create env dir n st) = getDate (stats_ctime st)
   \<and> hour (create env dir n st) = getHours (stats_ctime st)
   \<and> min_f (create env dir n st) = getMinutes (stats_ctime st)
   \<and> (\<forall>m. getMonth (stats_ctime st) = Num m \<and> 0 \<le> m \<and> m \<le> 11 \<longrightarrow>
        (\<exists>k. month (create env dir n st) = Num k \<and> 1 \<le> k \<and> k \<le> 12))"
  by (simp add: create_def Let_def)

theorem create_time_fields_witness:
  "month (create ex_env ''/tmp'' ''a.txt'' ex_stats) = Num 6
   \<and> day (create ex_env ''/tmp'' ''a.txt'' ex_stats) = Num 15
   \<and> hour (create ex_env ''/tmp'' ''a.txt'' ex_stats) = Num 10
   \<and> min_f (create ex_env ''/tmp'' ''a.txt'' ex_stats) = Num 30"
proof -
  have c: "stats_ctime ex_stats = \<lparr> getMonth = Num 5, getDate = Num 15, getHours = Num 10, getMinutes = Num 30 \<rparr>"
    by (simp add: ex_stats_def)
  from create_time_fields[of ex_env "''/tmp''" "''a.txt''" ex_stats]
  show ?thesis by (simp add: c)
qed

text \<open>
  Claim C4 as it was stated fails on a stat result whose modification time (03-02 08:05)
  differs from its status-change time (06-15 10:30): all four fields of the created entry
  follow the status-change time.
\<close>

theorem create_time_counterexample:
  "month (create ex_env ''/tmp'' ''a.txt'' ex_stats) = Num 6
   \<and> jsPlus (getMonth (stats_mtime ex_stats)) 1 = Num 3
   \<and> day (create ex_env ''/tmp'' ''a.txt'' ex_stats) = Num 15
   \<and> getDate (stats_mtime ex_stats) = Num 2
   \<and> hour (create ex_env ''/tmp'' ''a.txt'' ex_stats) = Num 10
   \<and> getHours (stats_mtime ex_stats) = Num 8
   \<and> min_f (create ex_env ''/tmp'' ''a.txt'' ex_stats) = Num 30
   \<and> getMinutes (stats_mtime ex_stats) = Num 5"
  by (simp add: create_def Let_def ex_stats_def)


section \<open>Selecting from the header, and selecting twice\<close>

text \<open>The buffer of \<open>/tmp\<close> is what the encoder produces for the file and the
  directory.\<close>

lemma ex_buffer_rendered: "ex_buffer = [''/tmp'' @ '':'', line ex_file, line ex_dir]"
  by code_simp

text \<open>
  Claim C2 (selecting a range twice gives the same lines as selecting it once, directory
  lines included), evaluated on the buffer of \<open>/tmp\<close>: the first pass over lines 1 and
  2 turns the directory's name \<open>sub/\<close> into \<open>sub//\<close>, and the second pass over the
  result turns it into \<open>sub///\<close>. The file's line is the same after both passes.
\<close>

theorem select_twice_appends_slash:
  "selectRange ''/tmp'' ex_buffer 1 3 True False =
     Inr [''/tmp:'',
          ''* -rw-r--r-- root     staff          42 01 05 09:03 x'',
          ''* drwxr-xr-x root     staff          96 01 05 09:03 sub//'']
   \<and> selectRange ''/tmp''
        [''/tmp:'',
         ''* -rw-r--r-- root     staff          42 01 05 09:03 x'',
         ''* drwxr-xr-x root     staff          96 01 05 09:03 sub//''] 1 3 True False =
     Inr [''/tmp:'',
          ''* -rw-r--r-- root     staff          42 01 05 09:03 x'',
          ''* drwxr-xr-x root     staff          96 01 05 09:03 sub///'']"
  by code_simp

text \<open>
  Claim C3 (the selection update never changes line 0, also for a multi-line selection
  that starts on line 0), evaluated on an editor whose selection runs from line 0 to line
  2: the header \<open>/tmp:\<close> is decoded as an entry and replaced by its encoding.
\<close>

theorem select_from_header_rewrites_header:
  "selectFiles [] (Some ex_editor) True =
     Inr ([''* mp:                        NaN NaN NaN NaN:NaN '',
           ''* -rw-r--r-- root     staff          42 01 05 09:03 x'',
           ''  drwxr-xr-x root     staff          96 01 05 09:03 sub/''], False)
   \<and> doc_lines ex_editor ! 0 = ''/tmp:''"
  by code_simp

text \<open>
  The loop leaves line 0 alone when it starts at line 1 or later, which is how
  \<open>selectFiles\<close> calls it when the selection is empty (select-all starts at 1, a cursor
  on a body line starts there).
\<close>

lemma selectRange_keeps_header:
  assumes "selectRange dir lns s e v a = Inr r" and "1 \<le> s"
  shows "r ! 0 = lns ! 0"
proof (cases "s < e")
  case False
  then have "r = lns" using assms(1) by (subst (asm) selectRange.simps) simp
  then show ?thesis by simp
next
  case True
  then have e: "e \<le> length lns" using selectRange_Inr_bound[OF assms(1)] by simp
  then have "0 < length lns" using True by linarith
  with selectRange_result[OF e, of dir s v a] assms show ?thesis by auto
qed

lemma selectFiles_cursor_keeps_header:
  assumes "sel_isEmpty (selection ed)" and "selectFiles old (Some ed) v = Inr (r, moved)"
  shows "(r = old \<and> \<not> moved) \<or> r ! 0 = doc_lines ed ! 0"
proof (cases "doc_lines ed")
  case Nil
  then show ?thesis using assms(2) by (simp add: selectFiles_def provider_dirname_def)
next
  case (Cons l0 ls)
  let ?dir = "substring l0 0 (length l0 - 1)"
  show ?thesis
  proof (cases "?dir = []")
    case True
    then show ?thesis using assms(2) Cons by (simp add: selectFiles_def provider_dirname_def)
  next
    case False
    show ?thesis
    proof (cases "sel_active_line (selection ed) = 0")
      case True
      then obtain r' where "selectRange ?dir (doc_lines ed) 1 (length (doc_lines ed)) v False = Inr r'"
        and "r = r'"
        using assms False Cons
        by (auto simp: selectFiles_def provider_dirname_def Let_def split: sum.splits)
      then show ?thesis using selectRange_keeps_header[of ?dir "doc_lines ed" 1 _ v False r] by simp
    next
      case nz: False
      then obtain r' where "selectRange ?dir (doc_lines ed) (sel_active_line (selection ed))
           (sel_active_line (selection ed) + 1) v True = Inr r'" and "r = r'"
        using assms False Cons
        by (auto simp: selectFiles_def provider_dirname_def Let_def split: sum.splits)
      then show ?thesis
        using selectRange_keeps_header[of ?dir "doc_lines ed" "sel_active_line (selection ed)" _ v True r] nz
        by simp
    qed
  qed
qed

text \<open>
  Re-encoding the decoded line of an entry that is not a directory changes the marker
  only, so a second pass over such a line changes nothing.
\<close>

lemma select_file_line_idempotent:
  assumes "username E = Some u" "groupname E = Some g"
    "modeStr E = Some m" "length m = 10" "\<not> isDirectory E" "take 1 m \<noteq> ''d''"
    "size_f E = Num sz" "0 \<le> sz" "sz < 10 ^ 8"
    "month E = Num mo" "0 \<le> mo" "mo < 100" "day E = Num d" "0 \<le> d" "d < 100"
    "hour E = Num h" "0 \<le> h" "h < 100" "min_f E = Num mi" "0 \<le> mi" "mi < 100"
  shows "line (select (parseLine dir (line E)) v) = line (select E v)"
proof -
  note aux = line_layout_aux[OF assms(3,4) assms(7-21)]
  have m1: "substring m 0 1 = take 1 m" by (simp add: substring_take_drop)
  have nums: "parseInt (substring (line E) 31 39) = Num sz" "parseInt (substring (line E) 40 42) = Num mo"
    "parseInt (substring (line E) 43 45) = Num d" "parseInt (substring (line E) 46 48) = Num h"
    "parseInt (substring (line E) 49 51) = Num mi"
    using assms by (simp_all add: aux parseInt_pad_zero parseInt_pad_space)
  have own: "\<And>s. substring (substring (s @ ''        '') 0 8 @ ''        '') 0 8 = substring (s @ ''        '') 0 8"
    by (simp add: substring_take_drop min_def)
  have P: "parseLine dir (line E) =
    \<lparr> dirname = dir, filename = filename E, isDirectory = False, isFile = (take 1 m = ''-''),
      username = Some (substring (u @ ''        '') 0 8),
      groupname = Some (substring (g @ ''        '') 0 8),
      size_f = Num sz, month = Num mo, day = Num d, hour = Num h, min_f = Num mi,
      modeStr = Some m, selected = selected E \<rparr>"
    unfolding parseLine_def Let_def
    using assms(1,2,5,6)
    by (simp add: aux(1,2,3,4,10) m1 nums strOrUndefined_def del: One_nat_def)
  show ?thesis
    unfolding P using assms(1,2,3,5,7,10,13,16,19)
    by (simp add: line_unfold select_def own strOrUndefined_def)
qed

end
